theory Spec2Isabelle
  imports Complex_Main "HOL-Library.AList" "HOL-Library.Multiset"
begin

text \<open>
  A model of the loan tracker: the CPF input mask, the in-memory activity log, and the
  screens that create loans, register payments, sum payments and remove duplicate
  payments, each as a function on the tables of the hosted database. The definitions
  come first, in the order of the screens; the properties follow, one section per part.
\<close>

section \<open>Input masks: \<open>formatCPF\<close>\<close>

text \<open>
  \<^verbatim>\<open>value.replace(/\D/g, '')\<close> keeps exactly the characters \<open>0\<close> .. \<open>9\<close> of the input, in
  their order. \<^verbatim>\<open>s.slice(a, b)\<close> with \<open>0 \<le> a \<le> b\<close> is the part of \<open>s\<close> from index \<open>a\<close> up to,
  not including, index \<open>b\<close>, cut at the end of \<open>s\<close>; \<^verbatim>\<open>s.slice(a)\<close> is the rest from \<open>a\<close>.
\<close>

definition is_digit :: "char \<Rightarrow> bool" where
  "is_digit c = (c \<in> set ''0123456789'')"

definition strip_non_digits :: "string \<Rightarrow> string" where
  "strip_non_digits v = filter is_digit v"

definition slice :: "string \<Rightarrow> nat \<Rightarrow> nat \<Rightarrow> string" where
  "slice s a b = take (b - a) (drop a s)"

definition slice_from :: "string \<Rightarrow> nat \<Rightarrow> string" where
  "slice_from s a = drop a s"

definition formatCPF :: "string \<Rightarrow> string" where
  "formatCPF v =
     (let cpf = strip_non_digits v in
      if length cpf \<le> 3 then cpf
      else if length cpf \<le> 6 then slice cpf 0 3 @ ''.'' @ slice_from cpf 3
      else if length cpf \<le> 9 then
        slice cpf 0 3 @ ''.'' @ slice cpf 3 6 @ ''.'' @ slice_from cpf 6
      else
        slice cpf 0 3 @ ''.'' @ slice cpf 3 6 @ ''.'' @ slice cpf 6 9 @ ''-'' @ slice cpf 9 11)"

section \<open>The in-memory activity log: \<open>ActivityLogger\<close>\<close>

text \<open>
  The logger keeps its entries in a private array and the name of the current user. The
  entry's id and timestamp come from the clock and the random generator; the model takes
  the three rendered strings as arguments. Console output is not part of the state.
\<close>

datatype log_type = Create | Update | Delete | Payment | Login | System

record ActivityLog =
  log_id :: string
  timestamp :: string
  log_user :: string
  action :: string
  entity :: string
  entityId :: "string option"
  details :: string
  log_type :: log_type

record ActivityLogger =
  logs :: "ActivityLog list"
  currentUser :: string

text \<open>
  \<^verbatim>\<open>details || `${action} realizada em ${entity}`\<close>: a missing or empty \<open>details\<close> is
  replaced by the default sentence. The \<open>type\<close> parameter defaults to \<open>'system'\<close>.
\<close>

definition details_or_default :: "string option \<Rightarrow> string \<Rightarrow> string \<Rightarrow> string" where
  "details_or_default d act ent =
     (case d of
        None \<Rightarrow> act @ '' realizada em '' @ ent
      | Some s \<Rightarrow> if s = [] then act @ '' realizada em '' @ ent else s)"

definition new_entry ::
  "ActivityLogger \<Rightarrow> string \<Rightarrow> string \<Rightarrow> string \<Rightarrow> string \<Rightarrow> string \<Rightarrow> string option \<Rightarrow>
   string option \<Rightarrow> log_type option \<Rightarrow> ActivityLog" where
  "new_entry lg now_ms rnd iso_now act ent ent_id det ty =
     \<lparr> log_id = ''log_'' @ now_ms @ ''_'' @ rnd,
       timestamp = iso_now,
       log_user = currentUser lg,
       action = act,
       entity = ent,
       entityId = ent_id,
       details = details_or_default det act ent,
       log_type = (case ty of None \<Rightarrow> System | Some t \<Rightarrow> t) \<rparr>"

text \<open>
  \<^verbatim>\<open>this.logs.unshift(logEntry)\<close> puts the entry in front;
  \<^verbatim>\<open>if (this.logs.length > 1000) this.logs = this.logs.slice(0, 1000)\<close> cuts the tail.
  The method returns the entry; the model returns it with the new logger. The method
  \<open>ActivityLogger.log\<close> is the constant \<open>logger_log\<close> here, since \<open>log\<close> is the logarithm
  of the library.
\<close>

definition logger_log ::
  "ActivityLogger \<Rightarrow> string \<Rightarrow> string \<Rightarrow> string \<Rightarrow> string \<Rightarrow> string \<Rightarrow> string option \<Rightarrow>
   string option \<Rightarrow> log_type option \<Rightarrow> ActivityLog \<times> ActivityLogger" where
  "logger_log lg now_ms rnd iso_now act ent ent_id det ty =
     (let logEntry = new_entry lg now_ms rnd iso_now act ent ent_id det ty;
          unshifted = logEntry # logs lg;
          kept = (if length unshifted > 1000 then take 1000 unshifted else unshifted)
      in (logEntry, lg\<lparr>logs := kept\<rparr>))"

section \<open>The remote tables\<close>

text \<open>
  The screens read and write three tables of the hosted database: \<open>clients\<close>, \<open>loans\<close>
  and \<open>loan_payments\<close>. A table is the list of its rows in insertion order. Amounts
  are JavaScript numbers in the screens and \<open>DECIMAL(10,2)\<close> columns in the tables; the
  model computes with exact rationals, so neither IEEE rounding nor the rounding of a
  column to two decimals is part of it. A calendar date (\<open>'YYYY-MM-DD'\<close>) is the number of
  its day counted from 1970-01-01, so that adding a week adds 7; time zones and daylight
  saving are not modelled. The free-text \<open>description\<close> of a loan and the display fields
  of a client other than its name and CPF are left out: no operation below reads them.
  The column \<open>id\<close> is the field \<open>cid\<close>, \<open>lid\<close> or \<open>pid\<close> of its record, and the column
  \<open>user_id\<close> of a payment is the field \<open>payer_id\<close>, a field name belonging to one record.
\<close>

record Client =
  cid :: string
  full_name :: string
  cpf :: string
  credit_limit :: rat
  available_credit :: rat
  is_first_loan :: bool

record Loan =
  lid :: string
  user_id :: string
  client_id :: string
  loan_amount :: rat
  interest_rate :: rat
  total_amount :: rat
  weekly_payment :: rat
  total_weeks :: int
  weeks_paid :: int
  loan_date :: int
  due_date :: int
  next_payment_date :: "int option"
  status :: string

record LoanPayment =
  pid :: string
  loan_id :: string
  payer_id :: string
  payment_amount :: rat
  payment_date :: int
  week_number :: int

record backend =
  clients :: "Client list"
  loans :: "Loan list"
  loan_payments :: "LoanPayment list"

text \<open>
  What a handler shows when it ends: nothing (a guard returned early), the toast that the
  amount exceeds the credit, the success toast, or the error toast of its \<open>catch\<close> block.
\<close>

datatype outcome = Silent | Credit_exceeded | Success | Error_reported

text \<open>
  Every remote call answers with an error or without one. The answer is not in the
  screen's hands, so each handler below takes, for each call it makes, a flag that says
  whether the call succeeds (\<open>True\<close>) or answers with an error (\<open>False\<close>). A call that
  answers with an error changes nothing.

  \<^verbatim>\<open>.from("loans").insert(row)\<close> appends a row. A row with a number that is not finite
  cannot be stored: JSON sends it as \<open>null\<close> and the column is \<open>NOT NULL\<close>; such a row is
  \<open>None\<close> here and its insert answers with an error.
\<close>

definition insert_loan :: "backend \<Rightarrow> bool \<Rightarrow> Loan option \<Rightarrow> backend option" where
  "insert_loan b ok row =
     (case row of
        None \<Rightarrow> None
      | Some l \<Rightarrow> if ok then Some (b\<lparr>loans := loans b @ [l]\<rparr>) else None)"

definition insert_payment :: "backend \<Rightarrow> LoanPayment \<Rightarrow> backend" where
  "insert_payment b p = b\<lparr>loan_payments := loan_payments b @ [p]\<rparr>"

text \<open>\<^verbatim>\<open>.update(fields).eq("id", i)\<close> rewrites the fields in every row whose id is \<open>i\<close>.\<close>

definition update_clients :: "backend \<Rightarrow> string \<Rightarrow> (Client \<Rightarrow> Client) \<Rightarrow> backend" where
  "update_clients b i f = b\<lparr>clients := map (\<lambda>c. if cid c = i then f c else c) (clients b)\<rparr>"

definition update_loans :: "backend \<Rightarrow> string \<Rightarrow> (Loan \<Rightarrow> Loan) \<Rightarrow> backend" where
  "update_loans b i f = b\<lparr>loans := map (\<lambda>l. if lid l = i then f l else l) (loans b)\<rparr>"

text \<open>
  \<^verbatim>\<open>.select(...).eq("id", i).single()\<close> gives the row when the call succeeds and exactly
  one row has the id; in every other case it gives an error and no data.
\<close>

definition select_client_single :: "backend \<Rightarrow> string \<Rightarrow> bool \<Rightarrow> Client option" where
  "select_client_single b i ok =
     (if ok then (case filter (\<lambda>c. cid c = i) (clients b) of [c] \<Rightarrow> Some c | _ \<Rightarrow> None)
      else None)"

text \<open>\<^verbatim>\<open>.delete().eq('id', i)\<close> removes every row whose id is \<open>i\<close>.\<close>

definition delete_payment :: "backend \<Rightarrow> string \<Rightarrow> bool \<Rightarrow> backend" where
  "delete_payment b i ok =
     (if ok then b\<lparr>loan_payments := filter (\<lambda>p. pid p \<noteq> i) (loan_payments b)\<rparr> else b)"

text \<open>What the tables hold for one client or one loan, read row by row.\<close>

definition stored_credit :: "backend \<Rightarrow> string \<Rightarrow> rat list" where
  "stored_credit b i = map available_credit (filter (\<lambda>c. cid c = i) (clients b))"


definition payments_of :: "backend \<Rightarrow> string \<Rightarrow> LoanPayment list" where
  "payments_of b i = filter (\<lambda>p. loan_id p = i) (loan_payments b)"

section \<open>Creating a loan: \<open>LoanForm\<close> and \<open>LoanSimulator\<close>\<close>

text \<open>
  A division of JavaScript numbers by zero gives \<open>Infinity\<close> or \<open>NaN\<close>; \<open>None\<close> stands for
  such a result.
\<close>

definition js_div :: "rat \<Rightarrow> rat \<Rightarrow> rat option" where
  "js_div a b = (if b = 0 then None else Some (a / b))"

record LoanDetails =
  loanAmount :: rat
  interestRate :: rat
  totalAmount :: rat
  weeklyPayment :: "rat option"
  weeks :: int

text \<open>
  \<open>LoanForm\<close>: the selected client is looked up in the \<open>clients\<close> property of the form,
  the amount is the text of a numeric input (\<open>None\<close> when the field is empty, which is what
  the input holds for anything that is not a number), the number of weeks is the value
  chosen in the select box.
\<close>

definition selected :: "Client list \<Rightarrow> string \<Rightarrow> Client option" where
  "selected cs i = find (\<lambda>c. cid c = i) cs"

definition calculateLoanDetails :: "Client option \<Rightarrow> rat option \<Rightarrow> int \<Rightarrow> LoanDetails option" where
  "calculateLoanDetails selectedClient loanAmountText totalWeeks =
     (case (selectedClient, loanAmountText) of
        (Some c, Some amount) \<Rightarrow>
          (let interestRate = 35;
               totalAmount = amount * (1 + interestRate / 100);
               weeklyPayment = js_div totalAmount (of_int totalWeeks)
           in Some \<lparr> loanAmount = amount, interestRate = interestRate,
                     totalAmount = totalAmount, weeklyPayment = weeklyPayment,
                     weeks = totalWeeks \<rparr>)
      | _ \<Rightarrow> None)"

text \<open>
  \<open>handleSubmit\<close>: the guard on the user, the client and the details; the credit check;
  the insert into \<open>loans\<close>; the update of the client's credit. \<open>today\<close> is the current date
  and \<open>new_id\<close> the id the database gives the row.
\<close>

definition handleSubmit ::
  "backend \<Rightarrow> string option \<Rightarrow> Client list \<Rightarrow> string \<Rightarrow> rat option \<Rightarrow> int \<Rightarrow> int \<Rightarrow> string \<Rightarrow>
   bool \<Rightarrow> bool \<Rightarrow> backend \<times> outcome" where
  "handleSubmit b user clients_prop selectedClientId loanAmountText totalWeeks today new_id
     loan_insert_ok client_update_ok =
     (let selectedClient = selected clients_prop selectedClientId;
          loanDetails = calculateLoanDetails selectedClient loanAmountText totalWeeks
      in case (user, selectedClient, loanDetails) of
        (Some u, Some c, Some d) \<Rightarrow>
          if loanAmount d > available_credit c then (b, Credit_exceeded)
          else
            (let loanDate = today;
                 nextPaymentDate = today + 7;
                 dueDate = today + weeks d * 7;
                 row = map_option (\<lambda>w.
                   \<lparr> lid = new_id, user_id = u, client_id = selectedClientId,
                     loan_amount = loanAmount d, interest_rate = interestRate d,
                     total_amount = totalAmount d, weekly_payment = w,
                     total_weeks = weeks d, weeks_paid = 0, loan_date = loanDate,
                     due_date = dueDate, next_payment_date = Some nextPaymentDate,
                     status = ''active'' \<rparr>) (weeklyPayment d)
             in case insert_loan b loan_insert_ok row of
                  None \<Rightarrow> (b, Error_reported)
                | Some b1 \<Rightarrow>
                    (let newAvailableCredit = available_credit c - loanAmount d
                     in if client_update_ok then
                          (update_clients b1 selectedClientId
                             (\<lambda>r. r\<lparr>available_credit := newAvailableCredit,
                                     is_first_loan := False\<rparr>), Success)
                        else (b1, Error_reported)))
      | _ \<Rightarrow> (b, Silent))"

text \<open>
  \<open>LoanSimulator\<close>: the amount, the total to repay, the number of weeks and the date of
  the first installment are state of the screen; the clients are the list the screen
  fetched. \<^verbatim>\<open>Array.from({ length: totalWeeks }, ...)\<close> has no element when \<open>totalWeeks\<close> is
  not positive.
\<close>

record ScheduleRow =
  week :: int
  date :: int
  amount :: "rat option"

record SimulatedLoanDetails = LoanDetails +
  jurosValor :: rat
  loanDate :: int
  nextPaymentDate :: int
  dueDate :: int
  paymentSchedule :: "ScheduleRow list"

definition addWeeks :: "int \<Rightarrow> int \<Rightarrow> int" where
  "addWeeks d n = d + 7 * n"

definition simulator_calculateLoanDetails ::
  "Client option \<Rightarrow> rat \<Rightarrow> rat \<Rightarrow> int \<Rightarrow> int \<Rightarrow> int \<Rightarrow> SimulatedLoanDetails option" where
  "simulator_calculateLoanDetails selectedClient loanAmountState totalAmountState totalWeeks
     firstPaymentDate today =
     (case selectedClient of
        None \<Rightarrow> None
      | Some c \<Rightarrow>
          (let amount = loanAmountState;
               total = totalAmountState;
               jurosValor = total - amount;
               interestRate = (if amount > 0 then (jurosValor / amount) * 100 else 0);
               weeklyPayment = js_div total (of_int totalWeeks);
               firstPayment = firstPaymentDate;
               dueDate = addWeeks firstPayment (totalWeeks - 1)
           in Some \<lparr> loanAmount = amount, interestRate = interestRate, totalAmount = total,
                     weeklyPayment = weeklyPayment, weeks = totalWeeks,
                     jurosValor = jurosValor, loanDate = today,
                     nextPaymentDate = firstPayment, dueDate = dueDate,
                     paymentSchedule =
                       map (\<lambda>i. \<lparr> week = int i + 1, date = firstPayment + int i * 7,
                                   amount = weeklyPayment \<rparr>) [0..<nat totalWeeks] \<rparr>))"

definition handleLoanCreation ::
  "backend \<Rightarrow> string option \<Rightarrow> Client list \<Rightarrow> string \<Rightarrow> rat \<Rightarrow> rat \<Rightarrow> int \<Rightarrow> int \<Rightarrow> int \<Rightarrow>
   string \<Rightarrow> bool \<Rightarrow> bool \<Rightarrow> backend \<times> outcome" where
  "handleLoanCreation b user clients_state selectedClientId loanAmountState totalAmountState
     totalWeeks firstPaymentDate today new_id loan_insert_ok credit_update_ok =
     (let selectedClient = selected clients_state selectedClientId;
          loanDetails = simulator_calculateLoanDetails selectedClient loanAmountState
                          totalAmountState totalWeeks firstPaymentDate today
      in case (user, selectedClient, loanDetails) of
        (Some u, Some c, Some d) \<Rightarrow>
          if loanAmount d > available_credit c then (b, Credit_exceeded)
          else
            (let loanDate = today;
                 dueDate = addWeeks firstPaymentDate (totalWeeks - 1);
                 row = map_option (\<lambda>w.
                   \<lparr> lid = new_id, user_id = u, client_id = selectedClientId,
                     loan_amount = loanAmount d, interest_rate = interestRate d,
                     total_amount = totalAmount d, weekly_payment = w,
                     total_weeks = weeks d, weeks_paid = 0, loan_date = loanDate,
                     due_date = dueDate, next_payment_date = Some firstPaymentDate,
                     status = ''pending'' \<rparr>) (weeklyPayment d)
             in case insert_loan b loan_insert_ok row of
                  None \<Rightarrow> (b, Error_reported)
                | Some b1 \<Rightarrow>
                    (let newAvailableCredit = available_credit c - loanAmount d
                     in if credit_update_ok then
                          (update_clients b1 selectedClientId
                             (\<lambda>r. r\<lparr>available_credit := newAvailableCredit,
                                     is_first_loan := False\<rparr>), Success)
                        else (b1, Error_reported)))
      | _ \<Rightarrow> (b, Silent))"

section \<open>Registering a payment\<close>

text \<open>
  Three screens register the payment of the next installment of a loan. Each works on the
  copy of the loan row that the screen loaded (\<open>loan\<close>), not on the stored row.
  \<^verbatim>\<open>new Date().toISOString().split('T')[0]\<close> is the current date \<open>today\<close>, and
  \<^verbatim>\<open>new Date(Date.now() + 7 * 24 * 60 * 60 * 1000)\<close> is seven days after it.
  \<^verbatim>\<open>new Date(null)\<close> is 1970-01-01, day 0.
\<close>

definition date_of :: "int option \<Rightarrow> int" where
  "date_of d = (case d of None \<Rightarrow> 0 | Some n \<Rightarrow> n)"

text \<open>
  \<open>LoanPayments.registerPayment\<close> (the payments screen of a client): the loan is looked
  up by its id in the loans the screen holds; the \<open>loans\<close> row is updated first, then the
  payment is inserted; when the loan is completed the client's credit is read and raised
  by the principal.
\<close>

definition registerPayment ::
  "backend \<Rightarrow> string option \<Rightarrow> Loan list \<Rightarrow> string \<Rightarrow> string \<Rightarrow> int \<Rightarrow> string \<Rightarrow>
   bool \<Rightarrow> bool \<Rightarrow> bool \<Rightarrow> bool \<Rightarrow> backend \<times> outcome" where
  "registerPayment b user loans_state loanId clientId today new_id
     loan_update_ok payment_insert_ok client_select_ok client_update_ok =
     (case user of
        None \<Rightarrow> (b, Silent)
      | Some u \<Rightarrow>
        (case find (\<lambda>l. lid l = loanId) loans_state of
           None \<Rightarrow> (b, Silent)
         | Some loan \<Rightarrow>
           (let newWeeksPaid = weeks_paid loan + 1;
                isCompleted = (newWeeksPaid \<ge> total_weeks loan);
                nextPaymentDate =
                  (if isCompleted then None
                   else Some (addWeeks (date_of (next_payment_date loan)) 1))
            in if \<not> loan_update_ok then (b, Error_reported)
               else
                 (let b1 = update_loans b loanId
                        (\<lambda>l. l\<lparr>weeks_paid := newWeeksPaid,
                                status := (if isCompleted then ''completed'' else ''pending''),
                                next_payment_date := nextPaymentDate\<rparr>)
                  in if \<not> payment_insert_ok then (b1, Error_reported)
                     else
                       (let b2 = insert_payment b1
                              \<lparr> pid = new_id, loan_id = loanId, payer_id = u,
                                payment_amount = weekly_payment loan, payment_date = today,
                                week_number = newWeeksPaid \<rparr>
                        in if isCompleted then
                             (case select_client_single b2 clientId client_select_ok of
                                None \<Rightarrow> (b2, Success)
                              | Some clientData \<Rightarrow>
                                  (let newCredit = available_credit clientData + loan_amount loan
                                   in if client_update_ok then
                                        (update_clients b2 clientId
                                           (\<lambda>c. c\<lparr>available_credit := newCredit\<rparr>), Success)
                                      else (b2, Success)))
                           else (b2, Success))))))"

text \<open>
  \<open>LoanDetails.handleRegisterPayment\<close> (the detail screen of a client): the payment is
  inserted first, then the \<open>loans\<close> row is updated, with the next payment seven days
  from today; when the loan is completed the client's credit and limit are read and the
  credit is raised by the principal, capped at the limit.
\<close>

definition handleRegisterPayment ::
  "backend \<Rightarrow> string option \<Rightarrow> Loan \<Rightarrow> string \<Rightarrow> int \<Rightarrow> string \<Rightarrow>
   bool \<Rightarrow> bool \<Rightarrow> bool \<Rightarrow> bool \<Rightarrow> backend \<times> outcome" where
  "handleRegisterPayment b user loan clientId today new_id
     payment_insert_ok loan_update_ok client_select_ok client_update_ok =
     (case user of
        None \<Rightarrow> (b, Silent)
      | Some u \<Rightarrow>
        (let newWeeksPaid = weeks_paid loan + 1;
             isCompleted = (newWeeksPaid \<ge> total_weeks loan)
         in if \<not> payment_insert_ok then (b, Error_reported)
            else
              (let b1 = insert_payment b
                     \<lparr> pid = new_id, loan_id = lid loan, payer_id = u,
                       payment_amount = weekly_payment loan, payment_date = today,
                       week_number = newWeeksPaid \<rparr>;
                   nextPaymentDate = (if isCompleted then None else Some (today + 7))
               in if \<not> loan_update_ok then (b1, Error_reported)
                  else
                    (let b2 = update_loans b1 (lid loan)
                           (\<lambda>l. l\<lparr>weeks_paid := newWeeksPaid,
                                   status := (if isCompleted then ''completed'' else ''active''),
                                   next_payment_date := nextPaymentDate\<rparr>)
                     in if isCompleted then
                          (case select_client_single b2 clientId client_select_ok of
                             None \<Rightarrow> (b2, Success)
                           | Some clientData \<Rightarrow>
                               (let newAvailableCredit =
                                      available_credit clientData + loan_amount loan;
                                    finalCredit = min newAvailableCredit (credit_limit clientData)
                                in if client_update_ok then
                                     (update_clients b2 clientId
                                        (\<lambda>c. c\<lparr>available_credit := finalCredit\<rparr>), Success)
                                   else (b2, Success)))
                        else (b2, Success)))))"



section \<open>Paid totals: one payment per week\<close>

text \<open>
  \<open>CashFlow\<close> and \<open>Reports\<close> sum the payments of a loan after keeping one payment per
  key in a \<open>Map\<close>. The key is \<^verbatim>\<open>payment.week_number || `${payment.payment_date}_${payment.id}`\<close>:
  the week number when it is not zero (zero is falsy, and the column is never null), and
  otherwise a string built from the date and the id of the payment, modelled as the pair
  of the two. A number is never the same key as a string. A \<open>Map\<close> keeps its keys in the
  order of their first insertion: it is an association list, \<open>Map.get\<close> is \<open>map_of\<close> and
  \<open>Map.set\<close> is \<open>AList.update\<close>.
\<close>

datatype week_key = Week int | Fallback int string

definition weekKey :: "LoanPayment \<Rightarrow> week_key" where
  "weekKey payment =
     (if week_number payment \<noteq> 0 then Week (week_number payment)
      else Fallback (payment_date payment) (pid payment))"

text \<open>
  \<^verbatim>\<open>if (!uniquePayments.has(weekKey) || new Date(payment.payment_date) <
  new Date(uniquePayments.get(weekKey).payment_date)) uniquePayments.set(weekKey, payment)\<close>
\<close>

definition uniquePayments_step ::
  "(week_key \<times> LoanPayment) list \<Rightarrow> LoanPayment \<Rightarrow> (week_key \<times> LoanPayment) list" where
  "uniquePayments_step m payment =
     (case map_of m (weekKey payment) of
        None \<Rightarrow> AList.update (weekKey payment) payment m
      | Some kept \<Rightarrow>
          if payment_date payment < payment_date kept
          then AList.update (weekKey payment) payment m else m)"

definition uniquePayments :: "LoanPayment list \<Rightarrow> (week_key \<times> LoanPayment) list" where
  "uniquePayments ps = foldl uniquePayments_step [] ps"

text \<open>
  \<^verbatim>\<open>Array.from(uniquePayments.values()).reduce((sum, payment) => sum +
  Number(payment.payment_amount), 0)\<close>
\<close>

definition totalPaid :: "LoanPayment list \<Rightarrow> rat" where
  "totalPaid ps =
     foldl (\<lambda>sum payment. sum + payment_amount payment) 0 (map snd (uniquePayments ps))"









section \<open>Removing duplicate payments: \<open>cleanupDuplicatePayments\<close>\<close>

text \<open>
  The key of a group is the string \<^verbatim>\<open>`${payment.loan_id}_${payment.week_number}`\<close>, with
  the week number written in decimal, a minus sign in front when it is negative.
\<close>

definition digit_char :: "nat \<Rightarrow> char" where
  "digit_char n = ''0123456789'' ! (n mod 10)"

fun show_nat :: "nat \<Rightarrow> string" where
  "show_nat n = (if n < 10 then [digit_char n] else show_nat (n div 10) @ [digit_char n])"

declare show_nat.simps [simp del]

definition show_int :: "int \<Rightarrow> string" where
  "show_int i = (if i < 0 then ''-'' @ show_nat (nat (- i)) else show_nat (nat i))"

definition payment_key :: "LoanPayment \<Rightarrow> string" where
  "payment_key payment = loan_id payment @ ''_'' @ show_int (week_number payment)"

text \<open>
  \<^verbatim>\<open>if (!paymentGroups.has(key)) paymentGroups.set(key, []);
  paymentGroups.get(key).push(payment)\<close>: the payment goes to the end of the group of its
  key, a new group going to the end of the map.
\<close>

definition paymentGroups_step ::
  "(string \<times> LoanPayment list) list \<Rightarrow> LoanPayment \<Rightarrow> (string \<times> LoanPayment list) list" where
  "paymentGroups_step m payment =
     (case map_of m (payment_key payment) of
        None \<Rightarrow> AList.update (payment_key payment) [payment] m
      | Some grp \<Rightarrow> AList.update (payment_key payment) (grp @ [payment]) m)"

definition paymentGroups :: "LoanPayment list \<Rightarrow> (string \<times> LoanPayment list) list" where
  "paymentGroups payments = foldl paymentGroups_step [] payments"

text \<open>
  The deletes are awaited one after the other and their answers are not looked at;
  \<open>delete_ok i\<close> says whether the delete of the payment with id \<open>i\<close> succeeds.
  \<^verbatim>\<open>group.slice(1)\<close> is the group without its first element.
\<close>

definition delete_payments :: "(string \<Rightarrow> bool) \<Rightarrow> backend \<Rightarrow> LoanPayment list \<Rightarrow> backend" where
  "delete_payments delete_ok b toDelete =
     foldl (\<lambda>b payment. delete_payment b (pid payment) (delete_ok (pid payment))) b toDelete"

definition delete_group :: "(string \<Rightarrow> bool) \<Rightarrow> backend \<Rightarrow> string \<times> LoanPayment list \<Rightarrow> backend" where
  "delete_group delete_ok b entry =
     (case entry of (key, grp) \<Rightarrow>
        if length grp > 1 then delete_payments delete_ok b (tl grp) else b)"

text \<open>
  The query of the routine reads all payments in ascending order of their payment date.
  The database does not say in which order it gives rows of the same date, so every list
  that holds the rows of the table, sorted by payment date, is an answer it may give.
  (The row-level policies of the database, which restrict the rows to those of the user,
  are not modelled.)
\<close>

definition ordered_by_payment_date :: "backend \<Rightarrow> LoanPayment list \<Rightarrow> bool" where
  "ordered_by_payment_date b payments =
     (mset payments = mset (loan_payments b) \<and> sorted (map payment_date payments))"

text \<open>
  The routine: nothing without a signed-in user; the answer of the query is an error
  (\<open>None\<close>), which is logged and ends the routine, or the payments read; then the groups
  are built and all but the first payment of each group are deleted.
\<close>

definition cleanupDuplicatePayments ::
  "backend \<Rightarrow> string option \<Rightarrow> LoanPayment list option \<Rightarrow> (string \<Rightarrow> bool) \<Rightarrow> backend" where
  "cleanupDuplicatePayments b user select_answer delete_ok =
     (case user of
        None \<Rightarrow> b
      | Some u \<Rightarrow>
          (case select_answer of
             None \<Rightarrow> b
           | Some payments \<Rightarrow> foldl (delete_group delete_ok) b (paymentGroups payments)))"

text \<open>The payments that the routine asks to delete: all but the first of each group.\<close>

definition to_delete :: "(string \<times> LoanPayment list) list \<Rightarrow> LoanPayment set" where
  "to_delete groups = (\<Union>e \<in> set groups. set (tl (snd e)))"

text \<open>
  \<open>syncLoanStatus\<close>, for one loan: the weeks paid are the number of distinct week numbers
  among its payments; the row is rewritten when it disagrees with that count or with the
  status that follows from it. The answer of the update is not looked at.
\<close>

definition syncLoan :: "(string \<Rightarrow> bool) \<Rightarrow> backend \<Rightarrow> Loan \<Rightarrow> backend" where
  "syncLoan update_ok b l =
     (let uniqueWeeks = remdups (map week_number (payments_of b (lid l)));
          actualWeeksPaid = int (length uniqueWeeks);
          shouldBeCompleted = (actualWeeksPaid \<ge> total_weeks l)
      in if weeks_paid l \<noteq> actualWeeksPaid \<or>
            (shouldBeCompleted \<and> status l \<noteq> ''completed'') \<or>
            (\<not> shouldBeCompleted \<and> status l = ''completed'')
         then if update_ok (lid l)
              then update_loans b (lid l)
                     (\<lambda>r. r\<lparr>weeks_paid := actualWeeksPaid,
                             status := (if shouldBeCompleted then ''completed'' else ''pending''),
                             next_payment_date :=
                               (if shouldBeCompleted then None else next_payment_date l)\<rparr>)
              else b
         else b)"

definition syncLoanStatus ::
  "backend \<Rightarrow> string option \<Rightarrow> bool \<Rightarrow> (string \<Rightarrow> bool) \<Rightarrow> backend" where
  "syncLoanStatus b user select_ok update_ok =
     (case user of
        None \<Rightarrow> b
      | Some u \<Rightarrow>
          if \<not> select_ok then b
          else foldl (syncLoan update_ok) b (filter (\<lambda>l. user_id l = u) (loans b)))"

section \<open>Sample tables\<close>

text \<open>
  One client with a credit of 500 and no loan yet, and the loan the form creates for her
  on day 20000 for a principal of 300 over 4 weeks.
\<close>

definition client_ana :: Client where
  "client_ana = \<lparr> cid = ''c1'', full_name = ''Ana'', cpf = ''123.456.789-09'',
     credit_limit = 500, available_credit = 500, is_first_loan = True \<rparr>"

definition tables_one_client :: backend where
  "tables_one_client = \<lparr> clients = [client_ana], loans = [], loan_payments = [] \<rparr>"

definition loan_ana_form :: Loan where
  "loan_ana_form = \<lparr> lid = ''L1'', user_id = ''u1'', client_id = ''c1'', loan_amount = 300,
     interest_rate = 35, total_amount = 405, weekly_payment = 405 / 4, total_weeks = 4,
     weeks_paid = 0, loan_date = 20000, due_date = 20028, next_payment_date = Some 20007,
     status = ''active'' \<rparr>"

text \<open>
  The tables after that loan was created, and the same tables when the loan row says
  that three of its four weeks are paid.
\<close>

definition tables_with_loan :: backend where
  "tables_with_loan =
     \<lparr> clients = [client_ana\<lparr>available_credit := 200, is_first_loan := False\<rparr>],
       loans = [loan_ana_form], loan_payments = [] \<rparr>"

definition loan_ana_last_week :: Loan where
  "loan_ana_last_week = loan_ana_form\<lparr>weeks_paid := 3, next_payment_date := Some 20028\<rparr>"

definition tables_last_week :: backend where
  "tables_last_week =
     \<lparr> clients = [client_ana\<lparr>available_credit := 200, is_first_loan := False\<rparr>],
       loans = [loan_ana_last_week], loan_payments = [] \<rparr>"

text \<open>The client row of those tables.\<close>

definition client_ana_indebted :: Client where
  "client_ana_indebted = client_ana\<lparr>available_credit := 200, is_first_loan := False\<rparr>"

text \<open>
  The loan with the payment of its first week, made on 11 October 2024 (day 20007), and
  three further payments for the same week: one made again on the same day, one dated
  two days earlier with another amount, one made on 3 November (day 20030). October 2024
  is the days 19997 to 20027, November the days 20028 to 20057.
\<close>

definition payment_week1 :: LoanPayment where
  "payment_week1 = \<lparr> pid = ''P1'', loan_id = ''L1'', payer_id = ''u1'',
     payment_amount = 405 / 4, payment_date = 20007, week_number = 1 \<rparr>"


definition payment_week1_again :: LoanPayment where
  "payment_week1_again = payment_week1\<lparr>pid := ''P2''\<rparr>"

definition payment_week1_backdated :: LoanPayment where
  "payment_week1_backdated =
     payment_week1\<lparr>pid := ''P3'', payment_amount := 100, payment_date := 20005\<rparr>"


text \<open>The loan with three payments recorded for its first week.\<close>

definition tables_duplicates :: backend where
  "tables_duplicates = tables_with_loan
     \<lparr>loan_payments := [payment_week1, payment_week1_again, payment_week1_backdated]\<rparr>"

section \<open>Properties of the input mask\<close>

lemma strip_non_digits_append:
  "strip_non_digits (xs @ ys) = strip_non_digits xs @ strip_non_digits ys"
  by (simp add: strip_non_digits_def)

lemma strip_non_digits_dot: "strip_non_digits (CHR ''.'' # xs) = strip_non_digits xs"
  by (simp add: strip_non_digits_def is_digit_def)

lemma strip_non_digits_dash: "strip_non_digits (CHR ''-'' # xs) = strip_non_digits xs"
  by (simp add: strip_non_digits_def is_digit_def)

lemma strip_take_digits:
  "strip_non_digits (take n (strip_non_digits v)) = take n (strip_non_digits v)"
  unfolding strip_non_digits_def
  by (rule filter_True) (auto dest: in_set_takeD)

lemma strip_drop_digits:
  "strip_non_digits (drop n (strip_non_digits v)) = drop n (strip_non_digits v)"
  unfolding strip_non_digits_def
  by (rule filter_True) (auto dest: in_set_dropD)

lemma strip_slice_digits:
  "strip_non_digits (slice (strip_non_digits v) a b) = slice (strip_non_digits v) a b"
  unfolding strip_non_digits_def slice_def
  by (rule filter_True) (auto dest!: in_set_takeD in_set_dropD)

lemma strip_idem: "strip_non_digits (strip_non_digits v) = strip_non_digits v"
  by (simp add: strip_non_digits_def)

lemma slices_3: "slice s 0 3 @ slice_from s 3 = s"
  by (simp add: slice_def slice_from_def)

lemma slices_6: "slice s 0 3 @ slice s 3 6 @ slice_from s 6 = s"
proof -
  have "take 3 (drop 3 s) @ drop 6 s = drop 3 s"
    using append_take_drop_id [of 3 "drop 3 s"] by simp
  then show ?thesis
    by (simp add: slice_def slice_from_def)
qed

lemma slices_11: "slice s 0 3 @ slice s 3 6 @ slice s 6 9 @ slice s 9 11 = take 11 s"
proof -
  have a: "take 11 s = take 3 s @ take 8 (drop 3 s)"
    using take_add [of 3 8 s] by simp
  have b: "take 8 (drop 3 s) = take 3 (drop 3 s) @ take 5 (drop 6 s)"
    using take_add [of 3 5 "drop 3 s"] by simp
  have c: "take 5 (drop 6 s) = take 3 (drop 6 s) @ take 2 (drop 9 s)"
    using take_add [of 3 2 "drop 6 s"] by simp
  show ?thesis
    by (simp add: slice_def a b c)
qed

lemma strip_formatCPF: "strip_non_digits (formatCPF v) = take 11 (strip_non_digits v)"
proof -
  let ?c = "strip_non_digits v"
  consider "length ?c \<le> 3" | "3 < length ?c" "length ?c \<le> 6"
    | "6 < length ?c" "length ?c \<le> 9" | "9 < length ?c"
    by linarith
  then show ?thesis
  proof cases
    case 1
    then show ?thesis
      by (simp add: formatCPF_def strip_idem)
  next
    case 2
    have "strip_non_digits (formatCPF v) = slice ?c 0 3 @ slice_from ?c 3"
      using 2 by (simp add: formatCPF_def Let_def strip_non_digits_append
          strip_non_digits_dot strip_slice_digits strip_drop_digits slice_from_def)
    with 2 show ?thesis
      by (simp add: slices_3)
  next
    case 3
    have "strip_non_digits (formatCPF v) = slice ?c 0 3 @ slice ?c 3 6 @ slice_from ?c 6"
      using 3 by (simp add: formatCPF_def Let_def strip_non_digits_append
          strip_non_digits_dot strip_slice_digits strip_drop_digits slice_from_def)
    with 3 show ?thesis
      by (simp add: slices_6)
  next
    case 4
    have "strip_non_digits (formatCPF v) =
            slice ?c 0 3 @ slice ?c 3 6 @ slice ?c 6 9 @ slice ?c 9 11"
      using 4 by (simp add: formatCPF_def Let_def strip_non_digits_append
          strip_non_digits_dot strip_non_digits_dash strip_slice_digits)
    then show ?thesis
      by (simp add: slices_11)
  qed
qed

lemma slice_take: "b \<le> n \<Longrightarrow> slice (take n s) a b = slice s a b"
proof -
  assume "b \<le> n"
  then have "min (b - a) (n - a) = b - a"
    by simp
  then show ?thesis
    by (simp add: slice_def drop_take)
qed

lemma formatCPF_of_digits: "formatCPF (take 11 (strip_non_digits v)) = formatCPF v"
proof -
  let ?c = "strip_non_digits v"
  have s: "strip_non_digits (take 11 ?c) = take 11 ?c"
    by (rule strip_take_digits)
  show ?thesis
  proof (cases "length ?c \<le> 9")
    case True
    then have "take 11 ?c = ?c" by simp
    then show ?thesis
      by (simp add: formatCPF_def strip_idem)
  next
    case False
    then have "\<not> length (take 11 ?c) \<le> 9" by simp
    with False show ?thesis
      by (simp add: formatCPF_def Let_def s slice_take del: length_take)
  qed
qed

text \<open>
  C10. \<open>formatCPF\<close> is idempotent, and its output is a function of the first 11 digit
  characters of the input alone: formatting the input gives the same string as formatting
  just those digits, whatever other characters the input holds.
\<close>

theorem formatCPF_idempotent_first_11_digits:
  "formatCPF (formatCPF v) = formatCPF v \<and>
   formatCPF v = formatCPF (take 11 (strip_non_digits v))"
proof -
  have "formatCPF (formatCPF v) = formatCPF (take 11 (strip_non_digits (formatCPF v)))"
    by (simp add: formatCPF_of_digits)
  also have "\<dots> = formatCPF (take 11 (strip_non_digits v))"
    by (simp add: strip_formatCPF)
  also have "\<dots> = formatCPF v"
    by (rule formatCPF_of_digits)
  finally show ?thesis
    by (simp add: formatCPF_of_digits)
qed

section \<open>Properties of the activity log\<close>

text \<open>
  C9. After every call of \<open>logger_log\<close> the list holds at most 1000 entries and the entry just
  added (the one the call returns) is its first element, followed by the earlier entries
  in their order; this holds from any logger state, so both invariants are preserved.
\<close>

theorem log_keeps_1000_newest_first:
  "length (logs (snd (logger_log lg now_ms rnd iso_now act ent ent_id det ty))) \<le> 1000 \<and>
   logs (snd (logger_log lg now_ms rnd iso_now act ent ent_id det ty)) =
     fst (logger_log lg now_ms rnd iso_now act ent ent_id det ty) # take 999 (logs lg)"
  by (simp add: logger_log_def Let_def)

section \<open>Properties of loan creation\<close>





lemma handleSubmit_example:
  "handleSubmit tables_one_client (Some ''u1'') [client_ana] ''c1'' (Some 300) 4 20000 ''L1''
     True True =
   (\<lparr> clients = [client_ana\<lparr>available_credit := 200, is_first_loan := False\<rparr>],
      loans = [loan_ana_form], loan_payments = [] \<rparr>, Success)"
  by (simp add: handleSubmit_def calculateLoanDetails_def selected_def client_ana_def
      tables_one_client_def loan_ana_form_def js_div_def insert_loan_def update_clients_def Let_def)








lemma handleSubmit_cases:
  assumes "handleSubmit b (Some u) cs sel (Some a) wk today nid io uo = (b', out)"
    and "selected cs sel = Some c"
  shows "(a > available_credit c \<and> b' = b \<and> out = Credit_exceeded) \<or>
         (\<not> a > available_credit c \<and> (wk = 0 \<or> \<not> io) \<and> b' = b \<and> out = Error_reported) \<or>
         (\<not> a > available_credit c \<and> wk \<noteq> 0 \<and> io \<and> \<not> uo \<and> out = Error_reported \<and>
            (\<exists>l. loan_amount l = a \<and> client_id l = sel \<and> loans b' = loans b @ [l]) \<and>
            clients b' = clients b \<and> loan_payments b' = loan_payments b) \<or>
         (\<not> a > available_credit c \<and> wk \<noteq> 0 \<and> io \<and> uo \<and> out = Success \<and>
            (\<exists>l. loan_amount l = a \<and> client_id l = sel \<and> loans b' = loans b @ [l]) \<and>
            clients b' = map (\<lambda>r. if cid r = sel
                then r\<lparr>available_credit := available_credit c - a, is_first_loan := False\<rparr>
                else r) (clients b) \<and>
            loan_payments b' = loan_payments b)"
  using assms
  by (auto simp: handleSubmit_def calculateLoanDetails_def Let_def js_div_def insert_loan_def
      update_clients_def split: option.splits if_splits)

lemma handleLoanCreation_cases:
  assumes "handleLoanCreation b (Some u) cs sel a tot wk first today nid io uo = (b', out)"
    and "selected cs sel = Some c"
  shows "(a > available_credit c \<and> b' = b \<and> out = Credit_exceeded) \<or>
         (\<not> a > available_credit c \<and> (wk = 0 \<or> \<not> io) \<and> b' = b \<and> out = Error_reported) \<or>
         (\<not> a > available_credit c \<and> wk \<noteq> 0 \<and> io \<and> \<not> uo \<and> out = Error_reported \<and>
            (\<exists>l. loan_amount l = a \<and> client_id l = sel \<and> loans b' = loans b @ [l]) \<and>
            clients b' = clients b \<and> loan_payments b' = loan_payments b) \<or>
         (\<not> a > available_credit c \<and> wk \<noteq> 0 \<and> io \<and> uo \<and> out = Success \<and>
            (\<exists>l. loan_amount l = a \<and> client_id l = sel \<and> loans b' = loans b @ [l]) \<and>
            clients b' = map (\<lambda>r. if cid r = sel
                then r\<lparr>available_credit := available_credit c - a, is_first_loan := False\<rparr>
                else r) (clients b) \<and>
            loan_payments b' = loan_payments b)"
  using assms
  by (auto simp: handleLoanCreation_def simulator_calculateLoanDetails_def Let_def js_div_def
      insert_loan_def update_clients_def split: option.splits if_splits)


lemma stored_credit_map_update:
  "map available_credit (filter (\<lambda>r. cid r = j)
     (map (\<lambda>r. if cid r = i then r\<lparr>available_credit := v, is_first_loan := fl\<rparr> else r) cs)) =
   (if j = i then map (\<lambda>_. v) (map available_credit (filter (\<lambda>r. cid r = j) cs))
    else map available_credit (filter (\<lambda>r. cid r = j) cs))"
  by (induction cs) auto

text \<open>
  C5 (as amended). A request by a signed-in user for a selected client, through the form
  or the simulator: if the amount exceeds the available credit the screen holds for the
  client, nothing changes and the request is refused; otherwise, when the insert of the
  loan and the update of the client both succeed, one loan row is added and the stored
  credit becomes the screen's figure less the amount (a decrease by exactly the amount
  when the screen's figure is the stored one), no other client being touched; when the
  insert fails nothing changes; when only the update of the client fails the loan row
  stays and the client record is unchanged. In every case a credit that was not negative
  is not negative afterwards.
\<close>

theorem loan_creation_credit_check:
  assumes run: "handleSubmit b (Some u) cs sel (Some a) wk today nid io uo = (b', out) \<or>
      handleLoanCreation b (Some u) cs sel a tot wk first today nid io uo = (b', out)"
    and c: "selected cs sel = Some c"
  shows "(a > available_credit c \<longrightarrow> b' = b \<and> out = Credit_exceeded) \<and>
    (\<not> a > available_credit c \<and> wk \<noteq> 0 \<and> io \<and> uo \<longrightarrow>
       out = Success \<and>
       (\<exists>l. loan_amount l = a \<and> client_id l = sel \<and> loans b' = loans b @ [l]) \<and>
       stored_credit b' sel = map (\<lambda>_. available_credit c - a) (stored_credit b sel) \<and>
       (stored_credit b sel = [available_credit c] \<longrightarrow>
          stored_credit b' sel = [available_credit c - a]) \<and>
       (\<forall>j. j \<noteq> sel \<longrightarrow> stored_credit b' j = stored_credit b j)) \<and>
    (\<not> a > available_credit c \<and> (wk = 0 \<or> \<not> io) \<longrightarrow> b' = b \<and> out = Error_reported) \<and>
    (\<not> a > available_credit c \<and> wk \<noteq> 0 \<and> io \<and> \<not> uo \<longrightarrow>
       out = Error_reported \<and> clients b' = clients b \<and>
       (\<exists>l. loan_amount l = a \<and> client_id l = sel \<and> loans b' = loans b @ [l])) \<and>
    (\<forall>j. (\<forall>x \<in> set (stored_credit b j). 0 \<le> x) \<longrightarrow> (\<forall>x \<in> set (stored_credit b' j). 0 \<le> x))"
proof -
  let ?upd = "map (\<lambda>r. if cid r = sel
      then r\<lparr>available_credit := available_credit c - a, is_first_loan := False\<rparr> else r) (clients b)"
  from run c consider
      (rejected) "a > available_credit c" "b' = b" "out = Credit_exceeded"
    | (no_insert) "\<not> a > available_credit c" "wk = 0 \<or> \<not> io" "b' = b" "out = Error_reported"
    | (no_update) "\<not> a > available_credit c" "wk \<noteq> 0" "io" "\<not> uo" "out = Error_reported"
        "\<exists>l. loan_amount l = a \<and> client_id l = sel \<and> loans b' = loans b @ [l]"
        "clients b' = clients b"
    | (created) "\<not> a > available_credit c" "wk \<noteq> 0" "io" "uo" "out = Success"
        "\<exists>l. loan_amount l = a \<and> client_id l = sel \<and> loans b' = loans b @ [l]"
        "clients b' = ?upd"
    using handleSubmit_cases [of b u cs sel a wk today nid io uo b' out c]
      handleLoanCreation_cases [of b u cs sel a tot wk first today nid io uo b' out c]
    by blast
  then show ?thesis
  proof cases
    case rejected
    then show ?thesis by simp
  next
    case no_insert
    then show ?thesis by auto
  next
    case no_update
    then show ?thesis by (auto simp: stored_credit_def)
  next
    case created
    have sc: "stored_credit b' j =
        (if j = sel then map (\<lambda>_. available_credit c - a) (stored_credit b j)
         else stored_credit b j)" for j
      unfolding stored_credit_def created(7) by (rule stored_credit_map_update)
    have "0 \<le> available_credit c - a"
      using created(1) by simp
    with sc have nonneg: "(\<forall>x \<in> set (stored_credit b j). 0 \<le> x) \<longrightarrow>
        (\<forall>x \<in> set (stored_credit b' j). 0 \<le> x)" for j
      by auto
    from created sc nonneg show ?thesis
      by auto
  qed
qed

lemma handleSubmit_update_fails:
  "handleSubmit tables_one_client (Some ''u1'') [client_ana] ''c1'' (Some 300) 4 20000 ''L1''
     True False =
   (\<lparr> clients = [client_ana], loans = [loan_ana_form], loan_payments = [] \<rparr>, Error_reported)"
  by (simp add: handleSubmit_def calculateLoanDetails_def selected_def client_ana_def
      tables_one_client_def loan_ana_form_def js_div_def insert_loan_def Let_def)

text \<open>
  The claim as first stated fails when the update of the client answers with an error:
  the amount is within the credit, the loan row is stored, and the credit is still 500.
\<close>

theorem loan_creation_partial_failure:
  "\<not> 300 > available_credit client_ana \<and>
   handleSubmit tables_one_client (Some ''u1'') [client_ana] ''c1'' (Some 300) 4 20000 ''L1''
     True False =
   (\<lparr> clients = [client_ana], loans = [loan_ana_form], loan_payments = [] \<rparr>, Error_reported) \<and>
   loans tables_one_client = [] \<and>
   stored_credit tables_one_client ''c1'' = [500] \<and>
   stored_credit \<lparr> clients = [client_ana], loans = [loan_ana_form], loan_payments = [] \<rparr> ''c1''
     = [500]"
  by (simp add: handleSubmit_update_fails)
     (simp add: stored_credit_def tables_one_client_def client_ana_def)

lemma handleSubmit_rejects:
  "handleSubmit tables_one_client (Some ''u1'') [client_ana] ''c1'' (Some 600) 4 20000 ''L1''
     True True = (tables_one_client, Credit_exceeded)"
  by (simp add: handleSubmit_def calculateLoanDetails_def selected_def client_ana_def
      tables_one_client_def js_div_def Let_def)

lemma selected_ana: "selected [client_ana] ''c1'' = Some client_ana"
  by (simp add: selected_def client_ana_def)

theorem loan_creation_credit_check_witness:
  "selected [client_ana] ''c1'' = Some client_ana \<and>
   handleSubmit tables_one_client (Some ''u1'') [client_ana] ''c1'' (Some 300) 4 20000 ''L1''
     True True =
   (\<lparr> clients = [client_ana\<lparr>available_credit := 200, is_first_loan := False\<rparr>],
      loans = [loan_ana_form], loan_payments = [] \<rparr>, Success) \<and>
   \<not> 300 > available_credit client_ana \<and>
   stored_credit tables_one_client ''c1'' = [available_credit client_ana] \<and>
   stored_credit \<lparr> clients = [client_ana\<lparr>available_credit := 200, is_first_loan := False\<rparr>],
      loans = [loan_ana_form], loan_payments = [] \<rparr> ''c1'' = [available_credit client_ana - 300] \<and>
   600 > available_credit client_ana \<and>
   handleSubmit tables_one_client (Some ''u1'') [client_ana] ''c1'' (Some 600) 4 20000 ''L1''
     True True = (tables_one_client, Credit_exceeded)"
proof -
  note ok = loan_creation_credit_check [OF disjI1 [OF handleSubmit_example] selected_ana]
  note rej = loan_creation_credit_check [OF disjI1 [OF handleSubmit_rejects] selected_ana]
  have le: "\<not> 300 > available_credit client_ana" and gt: "600 > available_credit client_ana"
    by (simp_all add: client_ana_def)
  have before: "stored_credit tables_one_client ''c1'' = [available_credit client_ana]"
    by (simp add: stored_credit_def tables_one_client_def client_ana_def)
  have four: "(4::int) \<noteq> 0"
    by simp
  from ok le before four have after:
    "stored_credit \<lparr> clients = [client_ana\<lparr>available_credit := 200, is_first_loan := False\<rparr>],
       loans = [loan_ana_form], loan_payments = [] \<rparr> ''c1'' = [available_credit client_ana - 300]"
    by blast
  from rej gt have "(tables_one_client, Credit_exceeded) = (tables_one_client, Credit_exceeded)"
    by blast
  with selected_ana handleSubmit_example le before after gt handleSubmit_rejects show ?thesis
    by blast
qed

section \<open>Properties of payment registration\<close>













lemma find_loan_ana: "find (\<lambda>l. lid l = ''L1'') [loan_ana_form] = Some loan_ana_form"
  by (simp add: loan_ana_form_def)





text \<open>
  C6 (as amended). Registering a payment is two separate calls with nothing to undo the
  first when the second fails. On the detail screen the payment is inserted and then the
  loan is updated: when the insert fails nothing changes, and when the update fails the
  inserted payment stays. On the payments screen the order is the reverse: when the
  update of the loan fails nothing changes, and when the insert fails the updated loan
  row stays with no payment row. Each failure ends in the error toast.
\<close>

theorem payment_registration_no_rollback:
  assumes "find (\<lambda>l. lid l = loanId) ls = Some loan"
  shows
   "handleRegisterPayment b (Some u) loan' cl today nid False lo so uo = (b, Error_reported) \<and>
    handleRegisterPayment b (Some u) loan' cl today nid True False so uo =
      (insert_payment b
         \<lparr> pid = nid, loan_id = lid loan', payer_id = u, payment_amount = weekly_payment loan',
           payment_date = today, week_number = weeks_paid loan' + 1 \<rparr>, Error_reported) \<and>
    registerPayment b (Some u) ls loanId cl today nid False po so uo = (b, Error_reported) \<and>
    registerPayment b (Some u) ls loanId cl today nid True False so uo =
      (update_loans b loanId
         (\<lambda>l. l\<lparr>weeks_paid := weeks_paid loan + 1,
                 status := (if weeks_paid loan + 1 \<ge> total_weeks loan then ''completed''
                            else ''pending''),
                 next_payment_date :=
                   (if weeks_paid loan + 1 \<ge> total_weeks loan then None
                    else Some (date_of (next_payment_date loan) + 7))\<rparr>), Error_reported) \<and>
    loans (insert_payment b p) = loans b \<and>
    loan_payments (insert_payment b p) = loan_payments b @ [p] \<and>
    loan_payments (update_loans b loanId f) = loan_payments b"
  using assms
  by (simp add: handleRegisterPayment_def registerPayment_def Let_def addWeeks_def
      insert_payment_def update_loans_def)

lemma registerPayment_update_fails:
  "registerPayment tables_with_loan (Some ''u1'') [loan_ana_form] ''L1'' ''c1'' 20010 ''P1''
     False True True True = (tables_with_loan, Error_reported)"
  by (simp add: registerPayment_def loan_ana_form_def Let_def)

lemma registerPayment_insert_fails:
  "registerPayment tables_with_loan (Some ''u1'') [loan_ana_form] ''L1'' ''c1'' 20010 ''P1''
     True False True True =
   (tables_with_loan\<lparr>loans := [loan_ana_form\<lparr>weeks_paid := 1, status := ''pending'',
       next_payment_date := Some 20014\<rparr>]\<rparr>, Error_reported)"
  by (simp add: registerPayment_def loan_ana_form_def Let_def update_loans_def addWeeks_def
      date_of_def tables_with_loan_def)

text \<open>
  The claim as first stated fails on the payments screen, which updates before it
  inserts: with the update of the loan failing no payment row is left behind, and with
  the insert failing the loan row already counts one more week paid.
\<close>

theorem payments_screen_updates_before_insert:
  "registerPayment tables_with_loan (Some ''u1'') [loan_ana_form] ''L1'' ''c1'' 20010 ''P1''
     False True True True = (tables_with_loan, Error_reported) \<and>
   loan_payments tables_with_loan = [] \<and>
   registerPayment tables_with_loan (Some ''u1'') [loan_ana_form] ''L1'' ''c1'' 20010 ''P1''
     True False True True =
   (tables_with_loan\<lparr>loans := [loan_ana_form\<lparr>weeks_paid := 1, status := ''pending'',
       next_payment_date := Some 20014\<rparr>]\<rparr>, Error_reported) \<and>
   loan_payments (tables_with_loan\<lparr>loans := [loan_ana_form\<lparr>weeks_paid := 1,
       status := ''pending'', next_payment_date := Some 20014\<rparr>]\<rparr>) = [] \<and>
   map weeks_paid (loans tables_with_loan) = [0]"
  by (simp add: registerPayment_update_fails registerPayment_insert_fails)
     (simp add: tables_with_loan_def loan_ana_form_def)

theorem payment_registration_no_rollback_witness:
  "find (\<lambda>l. lid l = ''L1'') [loan_ana_form] = Some loan_ana_form \<and>
   handleRegisterPayment tables_with_loan (Some ''u1'') loan_ana_form ''c1'' 20010 ''P1''
     True False True True =
   (insert_payment tables_with_loan
      \<lparr> pid = ''P1'', loan_id = lid loan_ana_form, payer_id = ''u1'',
        payment_amount = weekly_payment loan_ana_form, payment_date = 20010,
        week_number = weeks_paid loan_ana_form + 1 \<rparr>, Error_reported) \<and>
   registerPayment tables_with_loan (Some ''u1'') [loan_ana_form] ''L1'' ''c1'' 20010 ''P1''
     False True True True = (tables_with_loan, Error_reported)"
  using payment_registration_no_rollback [OF find_loan_ana, where b = tables_with_loan
      and u = "''u1''" and loan' = loan_ana_form and cl = "''c1''" and today = 20010
      and nid = "''P1''" and so = True and uo = True and po = True] find_loan_ana
  by blast


lemma stored_credit_set_available:
  "map available_credit (filter (\<lambda>r. cid r = j)
     (map (\<lambda>r. if cid r = i then r\<lparr>available_credit := v\<rparr> else r) cs)) =
   (if j = i then map (\<lambda>_. v) (map available_credit (filter (\<lambda>r. cid r = j) cs))
    else map available_credit (filter (\<lambda>r. cid r = j) cs))"
  by (induction cs) auto

lemma stored_credit_update_clients:
  "stored_credit (update_clients b i (\<lambda>c. c\<lparr>available_credit := v\<rparr>)) j =
   (if j = i then map (\<lambda>_. v) (stored_credit b j) else stored_credit b j)"
proof -
  have sel: "clients (b\<lparr>clients := X\<rparr>) = X" for X
    by simp
  show ?thesis
    unfolding stored_credit_def update_clients_def sel
    by (rule stored_credit_set_available)
qed

lemma stored_credit_insert_payment:
  "stored_credit (insert_payment b p) j = stored_credit b j"
  by (simp add: stored_credit_def insert_payment_def)

lemma stored_credit_update_loans:
  "stored_credit (update_loans b i f) j = stored_credit b j"
  by (simp add: stored_credit_def update_loans_def)

lemma select_client_insert_payment:
  "select_client_single (insert_payment b p) i ok = select_client_single b i ok"
  by (simp add: select_client_single_def insert_payment_def)

lemma select_client_update_loans:
  "select_client_single (update_loans b i f) j ok = select_client_single b j ok"
  by (simp add: select_client_single_def update_loans_def)

lemma select_client_single_Some:
  assumes "select_client_single b i ok = Some c"
  shows "ok \<and> filter (\<lambda>r. cid r = i) (clients b) = [c]"
  using assms
  by (auto simp: select_client_single_def split: if_splits list.splits)

lemma select_client_single_stored:
  assumes "select_client_single b i ok = Some c"
  shows "stored_credit b i = [available_credit c]"
  using select_client_single_Some [OF assms] by (simp add: stored_credit_def)

lemmas credit_simps =
  stored_credit_update_clients stored_credit_insert_payment stored_credit_update_loans
  select_client_insert_payment select_client_update_loans

lemma handleRegisterPayment_credit:
  assumes "select_client_single b cl True = Some c"
  shows "stored_credit (fst (handleRegisterPayment b (Some u) loan cl today nid po lo so uo)) cl =
    (if po \<and> lo \<and> so \<and> uo \<and> weeks_paid loan + 1 \<ge> total_weeks loan
     then [min (available_credit c + loan_amount loan) (credit_limit c)]
     else [available_credit c])"
proof -
  note st = select_client_single_stored [OF assms]
  have sel: "select_client_single b cl so = (if so then Some c else None)"
    using assms by (simp add: select_client_single_def)
  show ?thesis
    by (simp add: handleRegisterPayment_def Let_def credit_simps st sel assms)
qed

text \<open>
  C8 (as amended). On the detail screen, when a signed-in user registers the payment
  that completes a loan, the payment insert and the loan update succeed, and the
  client's row is read and then updated without error, the client's available credit
  becomes the smaller of its previous value plus the principal and the credit limit,
  which is at most the limit. When the read or the update of the client fails the
  available credit stays as it was. Whatever the answers of the four calls, the
  available credit afterwards is one of these two values.
\<close>

theorem final_payment_restores_credit_capped:
  assumes "weeks_paid loan + 1 \<ge> total_weeks loan"
    and "select_client_single b cl True = Some c"
  shows "stored_credit b cl = [available_credit c] \<and>
    snd (handleRegisterPayment b (Some u) loan cl today nid True True True True) = Success \<and>
    stored_credit (fst (handleRegisterPayment b (Some u) loan cl today nid True True True True)) cl =
      [min (available_credit c + loan_amount loan) (credit_limit c)] \<and>
    min (available_credit c + loan_amount loan) (credit_limit c) \<le> credit_limit c \<and>
    stored_credit (fst (handleRegisterPayment b (Some u) loan cl today nid True True False uo)) cl =
      [available_credit c] \<and>
    stored_credit (fst (handleRegisterPayment b (Some u) loan cl today nid True True so False)) cl =
      [available_credit c] \<and>
    (stored_credit (fst (handleRegisterPayment b (Some u) loan cl today nid po lo so uo)) cl =
       [available_credit c] \<or>
     stored_credit (fst (handleRegisterPayment b (Some u) loan cl today nid po lo so uo)) cl =
       [min (available_credit c + loan_amount loan) (credit_limit c)])"
proof -
  note cr = handleRegisterPayment_credit [OF assms(2)]
  have out: "snd (handleRegisterPayment b (Some u) loan cl today nid True True True True) = Success"
    by (simp add: handleRegisterPayment_def Let_def split: option.splits)
  show ?thesis
    using assms(1) out by (simp add: cr select_client_single_stored [OF assms(2)])
qed


lemma select_ana_last_week:
  "select_client_single tables_last_week ''c1'' True = Some client_ana_indebted"
  by (simp add: select_client_single_def tables_last_week_def client_ana_def
      client_ana_indebted_def)

lemma loan_ana_last_week_fields:
  "weeks_paid loan_ana_last_week + 1 \<ge> total_weeks loan_ana_last_week \<and>
   loan_amount loan_ana_last_week = 300"
  by (simp add: loan_ana_last_week_def loan_ana_form_def)

lemma client_ana_indebted_fields:
  "available_credit client_ana_indebted = 200 \<and> credit_limit client_ana_indebted = 500"
  by (simp add: client_ana_indebted_def client_ana_def)

theorem final_payment_restores_credit_capped_witness:
  "weeks_paid loan_ana_last_week + 1 \<ge> total_weeks loan_ana_last_week \<and>
   select_client_single tables_last_week ''c1'' True = Some client_ana_indebted \<and>
   stored_credit tables_last_week ''c1'' = [200] \<and>
   stored_credit (fst (handleRegisterPayment tables_last_week (Some ''u1'') loan_ana_last_week
     ''c1'' 20028 ''P4'' True True True True)) ''c1'' = [500]"
proof -
  note f = loan_ana_last_week_fields
  from final_payment_restores_credit_capped [OF f [THEN conjunct1] select_ana_last_week,
      where u = "''u1''" and today = 20028 and nid = "''P4''"]
  have "stored_credit tables_last_week ''c1'' = [available_credit client_ana_indebted] \<and>
    stored_credit (fst (handleRegisterPayment tables_last_week (Some ''u1'') loan_ana_last_week
      ''c1'' 20028 ''P4'' True True True True)) ''c1'' =
    [min (available_credit client_ana_indebted + loan_amount loan_ana_last_week)
       (credit_limit client_ana_indebted)]"
    by blast
  then show ?thesis
    using f select_ana_last_week client_ana_indebted_fields by simp
qed

text \<open>
  The claim as first stated fails when the read of the client answers with an error: the
  final payment is registered, the loan is completed, the success toast is shown, and the
  available credit is still 200, not 500.
\<close>

theorem final_payment_without_credit_restored:
  "weeks_paid loan_ana_last_week + 1 \<ge> total_weeks loan_ana_last_week \<and>
   stored_credit tables_last_week ''c1'' = [200] \<and>
   snd (handleRegisterPayment tables_last_week (Some ''u1'') loan_ana_last_week
     ''c1'' 20028 ''P4'' True True False True) = Success \<and>
   map status (loans (fst (handleRegisterPayment tables_last_week (Some ''u1'') loan_ana_last_week
     ''c1'' 20028 ''P4'' True True False True))) = [''completed''] \<and>
   stored_credit (fst (handleRegisterPayment tables_last_week (Some ''u1'') loan_ana_last_week
     ''c1'' 20028 ''P4'' True True False True)) ''c1'' = [200] \<and>
   min (200 + loan_amount loan_ana_last_week) (credit_limit client_ana_indebted) = 500"
proof -
  have run: "handleRegisterPayment tables_last_week (Some ''u1'') loan_ana_last_week
     ''c1'' 20028 ''P4'' True True False True =
     (update_loans (insert_payment tables_last_week
         \<lparr> pid = ''P4'', loan_id = ''L1'', payer_id = ''u1'', payment_amount = 405 / 4,
           payment_date = 20028, week_number = 4 \<rparr>) ''L1''
        (\<lambda>l. l\<lparr>weeks_paid := 4, status := ''completed'', next_payment_date := None\<rparr>), Success)"
    by (simp add: handleRegisterPayment_def Let_def select_client_single_def
        loan_ana_last_week_def loan_ana_form_def)
  have st: "stored_credit tables_last_week ''c1'' = [200]"
    by (simp add: stored_credit_def tables_last_week_def client_ana_def)
  have closed_row: "map status (loans (update_loans (insert_payment tables_last_week p) ''L1''
        (\<lambda>l. l\<lparr>weeks_paid := 4, status := ''completed'', next_payment_date := None\<rparr>))) =
      [''completed'']" for p
    by (simp add: update_loans_def insert_payment_def tables_last_week_def
        loan_ana_last_week_def loan_ana_form_def)
  show ?thesis
    unfolding run
    using loan_ana_last_week_fields client_ana_indebted_fields
    by (simp add: st closed_row credit_simps)
qed

section \<open>Properties of the paid totals\<close>















lemma foldl_add_sum_list:
  "foldl (\<lambda>sum payment. sum + f payment) (a::rat) xs = a + sum_list (map f xs)"
  by (induction xs arbitrary: a) simp_all

lemma totalPaid_sum_list:
  "totalPaid ps = sum_list (map (\<lambda>e. payment_amount (snd e)) (uniquePayments ps))"
  by (simp add: totalPaid_def foldl_add_sum_list comp_def)











section \<open>Properties of the cleanup of duplicate payments\<close>

text \<open>The key of a group determines the loan and the week number.\<close>

lemma digit_char_in_digits: "digit_char n \<in> set ''0123456789''"
  unfolding digit_char_def by (rule nth_mem) simp

lemma digit_char_inj: "digit_char m = digit_char n \<Longrightarrow> m mod 10 = n mod 10"
proof -
  assume eq: "digit_char m = digit_char n"
  have d: "distinct ''0123456789''"
    by simp
  have "m mod 10 < length ''0123456789''" "n mod 10 < length ''0123456789''"
    by simp_all
  with d eq show ?thesis
    unfolding digit_char_def by (simp only: nth_eq_iff_index_eq)
qed

lemma show_nat_digits: "set (show_nat n) \<subseteq> set ''0123456789''"
proof (induction n rule: show_nat.induct)
  case (1 n)
  show ?case
  proof (cases "n < 10")
    case True
    then show ?thesis
      using digit_char_in_digits [of n] by (subst show_nat.simps) simp
  next
    case False
    with "1" show ?thesis
      using digit_char_in_digits [of n] by (subst show_nat.simps) simp
  qed
qed

lemma show_nat_nonempty: "show_nat n \<noteq> []"
  by (subst show_nat.simps) simp

lemma show_nat_inj: "show_nat m = show_nat n \<Longrightarrow> m = n"
proof (induction m arbitrary: n rule: show_nat.induct)
  case (1 m)
  show ?case
  proof (cases "m < 10")
    case m: True
    show ?thesis
    proof (cases "n < 10")
      case True
      with m "1.prems" have "digit_char m = digit_char n"
        by (simp add: show_nat.simps [of m] show_nat.simps [of n])
      from digit_char_inj [OF this] m True show ?thesis by simp
    next
      case False
      with m "1.prems" have "[digit_char m] = show_nat (n div 10) @ [digit_char n]"
        by (simp add: show_nat.simps [of m] show_nat.simps [of n])
      then show ?thesis
        using show_nat_nonempty [of "n div 10"] by simp
    qed
  next
    case m: False
    show ?thesis
    proof (cases "n < 10")
      case True
      with m "1.prems" have "show_nat (m div 10) @ [digit_char m] = [digit_char n]"
        by (simp add: show_nat.simps [of m] show_nat.simps [of n])
      then show ?thesis
        using show_nat_nonempty [of "m div 10"] by simp
    next
      case False
      with m "1.prems" have "show_nat (m div 10) = show_nat (n div 10)"
        and "digit_char m = digit_char n"
        by (simp_all add: show_nat.simps [of m] show_nat.simps [of n])
      with "1.IH" [OF m] digit_char_inj have "m div 10 = n div 10" "m mod 10 = n mod 10"
        by blast+
      then show ?thesis
        by (metis div_mult_mod_eq)
    qed
  qed
qed

lemma show_nat_no_underscore: "CHR ''_'' \<notin> set (show_nat n)"
  using show_nat_digits [of n] by auto

lemma show_nat_no_minus: "CHR ''-'' \<notin> set (show_nat n)"
  using show_nat_digits [of n] by auto

lemma show_int_no_underscore: "CHR ''_'' \<notin> set (show_int i)"
  by (simp add: show_int_def show_nat_no_underscore)

lemma show_int_inj: "show_int i = show_int j \<Longrightarrow> i = j"
proof -
  assume eq: "show_int i = show_int j"
  have neg: "hd (show_int k) = CHR ''-'' \<longleftrightarrow> k < 0" for k
    using show_nat_no_minus [of "nat k"] show_nat_nonempty [of "nat k"]
    by (auto simp: show_int_def dest: hd_in_set)
  from eq neg [of i] neg [of j] have sign: "i < 0 \<longleftrightarrow> j < 0"
    by simp
  show ?thesis
  proof (cases "i < 0")
    case True
    with sign eq have "show_nat (nat (- i)) = show_nat (nat (- j))"
      by (simp add: show_int_def)
    from show_nat_inj [OF this] True sign show ?thesis by simp
  next
    case False
    with sign eq have "show_nat (nat i) = show_nat (nat j)"
      by (simp add: show_int_def)
    from show_nat_inj [OF this] False sign show ?thesis by simp
  qed
qed

lemma split_at_last_underscore:
  assumes "xs @ CHR ''_'' # s = ys @ CHR ''_'' # t"
    and "CHR ''_'' \<notin> set s" and "CHR ''_'' \<notin> set t"
  shows "xs = ys \<and> s = t"
proof -
  from assms(1) have "rev s @ CHR ''_'' # rev xs = rev t @ CHR ''_'' # rev ys"
    by (metis rev_append rev.simps(2) append_assoc append_Cons append_Nil)
  moreover have "takeWhile (\<lambda>c. c \<noteq> CHR ''_'') (rev u @ CHR ''_'' # v) = rev u"
    if "CHR ''_'' \<notin> set u" for u v
    using that by (subst takeWhile_append2) auto
  ultimately have "rev s = rev t"
    using assms(2,3) by metis
  with assms(1) show ?thesis by simp
qed

lemma payment_key_eq_iff:
  "payment_key p = payment_key q \<longleftrightarrow> loan_id p = loan_id q \<and> week_number p = week_number q"
proof
  assume "payment_key p = payment_key q"
  then have "loan_id p @ CHR ''_'' # show_int (week_number p) =
      loan_id q @ CHR ''_'' # show_int (week_number q)"
    by (simp add: payment_key_def)
  from split_at_last_underscore [OF this show_int_no_underscore show_int_no_underscore]
  show "loan_id p = loan_id q \<and> week_number p = week_number q"
    by (auto dest: show_int_inj)
next
  assume "loan_id p = loan_id q \<and> week_number p = week_number q"
  then show "payment_key p = payment_key q"
    by (simp add: payment_key_def)
qed

text \<open>The groups, and what is left when every delete succeeds.\<close>

lemma paymentGroups_snoc:
  "paymentGroups (ps @ [p]) = paymentGroups_step (paymentGroups ps) p"
  by (simp add: paymentGroups_def)

lemma paymentGroups_distinct: "distinct (map fst (paymentGroups ps))"
proof (induction ps rule: rev_induct)
  case Nil
  show ?case by (simp add: paymentGroups_def)
next
  case (snoc p ps)
  then show ?case
    by (simp add: paymentGroups_snoc paymentGroups_step_def AList.distinct_update
        split: option.splits)
qed

lemma paymentGroups_step_map_of:
  "map_of (paymentGroups_step m p) k =
     (if k = payment_key p
      then Some ((case map_of m k of None \<Rightarrow> [] | Some g \<Rightarrow> g) @ [p])
      else map_of m k)"
  by (auto simp: paymentGroups_step_def AList.update_conv' split: option.splits)

text \<open>The group of a key holds the payments with that key, in the order they were read.\<close>

lemma paymentGroups_map_of:
  "map_of (paymentGroups ps) k =
     (if filter (\<lambda>p. payment_key p = k) ps = [] then None
      else Some (filter (\<lambda>p. payment_key p = k) ps))"
proof (induction ps rule: rev_induct)
  case Nil
  show ?case by (simp add: paymentGroups_def)
next
  case (snoc p ps)
  show ?case
    unfolding paymentGroups_snoc paymentGroups_step_map_of snoc.IH
    by auto
qed

lemma paymentGroups_entry:
  "(k, g) \<in> set (paymentGroups ps) \<longleftrightarrow> g \<noteq> [] \<and> g = filter (\<lambda>p. payment_key p = k) ps"
proof -
  have "(k, g) \<in> set (paymentGroups ps) \<longleftrightarrow> map_of (paymentGroups ps) k = Some g"
    using paymentGroups_distinct [of ps] by simp
  then show ?thesis
    unfolding paymentGroups_map_of by auto
qed

lemma delete_payment_ok:
  "delete_payment b i True = b\<lparr>loan_payments := filter (\<lambda>p. pid p \<noteq> i) (loan_payments b)\<rparr>"
  by (simp add: delete_payment_def)

lemma delete_payments_all:
  assumes "\<And>i. delete_ok i"
  shows "delete_payments delete_ok b ds =
     b\<lparr>loan_payments := filter (\<lambda>p. pid p \<notin> pid ` set ds) (loan_payments b)\<rparr>"
proof (induction ds arbitrary: b)
  case Nil
  show ?case by (simp add: delete_payments_def)
next
  case (Cons d ds)
  have "delete_payments delete_ok b (d # ds) =
      delete_payments delete_ok (delete_payment b (pid d) True) ds"
    by (simp add: delete_payments_def assms)
  also have "\<dots> = (delete_payment b (pid d) True)
      \<lparr>loan_payments := filter (\<lambda>p. pid p \<notin> pid ` set ds)
         (loan_payments (delete_payment b (pid d) True))\<rparr>"
    by (rule Cons.IH)
  also have "\<dots> = b\<lparr>loan_payments := filter (\<lambda>p. pid p \<notin> pid ` set (d # ds)) (loan_payments b)\<rparr>"
    by (simp add: delete_payment_ok conj_commute)
  finally show ?case .
qed

lemma to_delete_Cons: "to_delete (e # groups) = set (tl (snd e)) \<union> to_delete groups"
  by (simp add: to_delete_def)

lemma delete_group_all:
  assumes "\<And>i. delete_ok i"
  shows "delete_group delete_ok b e =
      b\<lparr>loan_payments := filter (\<lambda>p. pid p \<notin> pid ` set (tl (snd e))) (loan_payments b)\<rparr>"
proof -
  obtain k g where e: "e = (k, g)" by (cases e)
  show ?thesis
  proof (cases "length g > 1")
    case True
    then show ?thesis
      by (simp add: delete_group_def e delete_payments_all [OF assms])
  next
    case False
    then have "tl g = []"
      by (cases g) auto
    with False show ?thesis
      by (simp add: delete_group_def e)
  qed
qed

lemma delete_groups_all:
  assumes "\<And>i. delete_ok i"
  shows "foldl (delete_group delete_ok) b groups =
     b\<lparr>loan_payments := filter (\<lambda>p. pid p \<notin> pid ` to_delete groups) (loan_payments b)\<rparr>"
proof (induction groups arbitrary: b)
  case Nil
  show ?case by (simp add: to_delete_def)
next
  case (Cons e groups)
  let ?b1 = "b\<lparr>loan_payments := filter (\<lambda>p. pid p \<notin> pid ` set (tl (snd e))) (loan_payments b)\<rparr>"
  have "foldl (delete_group delete_ok) b (e # groups) = foldl (delete_group delete_ok) ?b1 groups"
    by (simp add: delete_group_all [OF assms])
  also have "\<dots> = ?b1\<lparr>loan_payments :=
      filter (\<lambda>p. pid p \<notin> pid ` to_delete groups) (loan_payments ?b1)\<rparr>"
    by (rule Cons.IH)
  also have "\<dots> = b\<lparr>loan_payments :=
      filter (\<lambda>p. pid p \<notin> pid ` to_delete (e # groups)) (loan_payments b)\<rparr>"
    by (simp add: to_delete_Cons image_Un conj_commute)
  finally show ?case .
qed

lemma in_tl_iff: "distinct g \<Longrightarrow> p \<in> set g \<Longrightarrow> p \<in> set (tl g) \<longleftrightarrow> p \<noteq> hd g"
  by (cases g) auto

text \<open>With unique ids, the ids to delete are those of the payments that are not first.\<close>

lemma deleted_iff_not_first:
  assumes ids: "distinct (map pid s)" and p: "p \<in> set s"
  shows "pid p \<in> pid ` to_delete (paymentGroups s) \<longleftrightarrow>
         p \<noteq> hd (filter (\<lambda>q. payment_key q = payment_key p) s)"
proof -
  from ids have ds: "distinct s" and inj: "inj_on pid (set s)"
    by (simp_all add: distinct_map)
  let ?g = "filter (\<lambda>q. payment_key q = payment_key p) s"
  have dg: "distinct ?g" using ds by simp
  have pg: "p \<in> set ?g" using p by simp
  show ?thesis
  proof
    assume "pid p \<in> pid ` to_delete (paymentGroups s)"
    then obtain k g q where e: "(k, g) \<in> set (paymentGroups s)" and q: "q \<in> set (tl g)"
      and eq: "pid q = pid p"
      by (auto simp: to_delete_def)
    from e have g: "g = filter (\<lambda>q. payment_key q = k) s"
      by (simp add: paymentGroups_entry)
    from q have "q \<in> set g"
      by (cases g) auto
    with g have "q \<in> set s" "payment_key q = k"
      by auto
    with inj eq p have "q = p"
      by (auto dest: inj_onD)
    with \<open>payment_key q = k\<close> g have "g = ?g"
      by simp
    with q \<open>q = p\<close> dg pg show "p \<noteq> hd ?g"
      by (simp add: in_tl_iff)
  next
    assume "p \<noteq> hd ?g"
    with dg pg have "p \<in> set (tl ?g)"
      by (simp add: in_tl_iff)
    moreover from pg have "?g \<noteq> []"
      by (metis empty_iff empty_set)
    then have "(payment_key p, ?g) \<in> set (paymentGroups s)"
      unfolding paymentGroups_entry by simp
    ultimately have "p \<in> to_delete (paymentGroups s)"
      unfolding to_delete_def by force
    then show "pid p \<in> pid ` to_delete (paymentGroups s)"
      by blast
  qed
qed

lemma same_group_filter:
  "filter (\<lambda>q. payment_key q = payment_key p) s =
   filter (\<lambda>q. loan_id q = loan_id p \<and> week_number q = week_number p) s"
  by (simp add: payment_key_eq_iff)

lemma ordered_by_payment_date_sort:
  "ordered_by_payment_date b (sort_key payment_date (loan_payments b))"
  by (simp add: ordered_by_payment_date_def)

lemma ordered_by_payment_date_set:
  assumes "ordered_by_payment_date b s"
  shows "set s = set (loan_payments b)"
  using assms by (auto simp: ordered_by_payment_date_def dest: mset_eq_setD)

lemma ordered_by_payment_date_ids:
  assumes "ordered_by_payment_date b s" and "distinct (map pid (loan_payments b))"
  shows "distinct (map pid s)"
proof -
  from assms(1) have "mset (map pid s) = mset (map pid (loan_payments b))"
    by (simp add: ordered_by_payment_date_def)
  with assms(2) show ?thesis
    by (metis mset_eq_imp_distinct_iff)
qed

lemma cleanup_all_ok:
  assumes ok: "\<And>i. delete_ok i" and ids: "distinct (map pid (loan_payments b))"
    and sel: "ordered_by_payment_date b s"
  shows "cleanupDuplicatePayments b (Some u) (Some s) delete_ok =
    b\<lparr>loan_payments :=
        filter (\<lambda>p. p = hd (filter (\<lambda>q. loan_id q = loan_id p \<and> week_number q = week_number p) s))
          (loan_payments b)\<rparr>"
proof -
  note ids' = ordered_by_payment_date_ids [OF sel ids]
  have "filter (\<lambda>p. pid p \<notin> pid ` to_delete (paymentGroups s)) (loan_payments b) =
      filter (\<lambda>p. p = hd (filter (\<lambda>q. loan_id q = loan_id p \<and> week_number q = week_number p) s))
        (loan_payments b)"
  proof (rule filter_cong [OF refl])
    fix p assume "p \<in> set (loan_payments b)"
    then have "p \<in> set s"
      by (simp add: ordered_by_payment_date_set [OF sel])
    from deleted_iff_not_first [OF ids' this]
    show "(pid p \<notin> pid ` to_delete (paymentGroups s)) =
        (p = hd (filter (\<lambda>q. loan_id q = loan_id p \<and> week_number q = week_number p) s))"
      by (simp add: same_group_filter)
  qed
  then show ?thesis
    by (simp add: cleanupDuplicatePayments_def delete_groups_all [OF ok])
qed

lemma distinct_all_equal_length:
  assumes "distinct xs" and "\<And>x. x \<in> set xs \<Longrightarrow> x = h"
  shows "length xs \<le> 1"
proof -
  from assms(2) have "set xs \<subseteq> {h}" by blast
  then have "card (set xs) \<le> card {h}"
    by (intro card_mono) simp_all
  with assms(1) show ?thesis
    by (simp add: distinct_card)
qed

lemma sorted_hd_le:
  assumes "sorted (map f g)" and "q \<in> set g"
  shows "f (hd g) \<le> f q"
  using assms by (cases g) auto

lemma delete_nothing:
  assumes "\<And>i. \<not> delete_ok i"
  shows "cleanupDuplicatePayments b user select_answer delete_ok = b"
proof -
  have one: "delete_payments delete_ok b ds = b" for b ds
    unfolding delete_payments_def
    by (induction ds arbitrary: b) (simp_all add: delete_payment_def assms)
  have grp: "delete_group delete_ok b e = b" for b e
    by (simp add: delete_group_def one split: prod.splits)
  have "foldl (delete_group delete_ok) b groups = b" for groups
    by (induction groups arbitrary: b) (simp_all add: grp)
  then show ?thesis
    by (simp add: cleanupDuplicatePayments_def split: option.splits)
qed

text \<open>
  C7 (as amended). When a signed-in user runs the cleanup, the query answers with the
  payments of the table in ascending order of payment date, every delete succeeds and the
  payments have distinct ids: afterwards every group of payments with the same loan and
  week number has at most one payment; the payments left are exactly those that come
  first in their group in the order the query gave, so each has the earliest date of its
  group; every group keeps a payment; clients and loans are untouched. Without a
  signed-in user, or when the query fails, the routine changes nothing.
\<close>

theorem cleanup_keeps_first_of_each_group:
  assumes ok: "\<And>i. delete_ok i" and ids: "distinct (map pid (loan_payments b))"
    and sel: "ordered_by_payment_date b payments"
    and b': "b' = cleanupDuplicatePayments b (Some u) (Some payments) delete_ok"
  shows "length (filter (\<lambda>p. loan_id p = L \<and> week_number p = w) (loan_payments b')) \<le> 1 \<and>
    loan_payments b' =
      filter (\<lambda>p. p = hd (filter (\<lambda>q. loan_id q = loan_id p \<and> week_number q = week_number p)
                        payments))
        (loan_payments b) \<and>
    (\<forall>p \<in> set (loan_payments b').
       p \<in> set (loan_payments b) \<and>
       (\<forall>q \<in> set (loan_payments b).
          loan_id q = loan_id p \<and> week_number q = week_number p \<longrightarrow>
          payment_date p \<le> payment_date q)) \<and>
    (\<forall>q \<in> set (loan_payments b).
       \<exists>p \<in> set (loan_payments b'). loan_id p = loan_id q \<and> week_number p = week_number q) \<and>
    clients b' = clients b \<and> loans b' = loans b \<and>
    cleanupDuplicatePayments b None select_answer delete_ok = b \<and>
    cleanupDuplicatePayments b user None delete_ok = b"
proof -
  let ?grp = "\<lambda>p. filter (\<lambda>q. loan_id q = loan_id p \<and> week_number q = week_number p) payments"
  note eq = cleanup_all_ok [OF ok ids sel, of u]
  note same = ordered_by_payment_date_set [OF sel]
  have left: "loan_payments b' = filter (\<lambda>p. p = hd (?grp p)) (loan_payments b)"
    unfolding b' eq by simp
  have rest: "clients b' = clients b \<and> loans b' = loans b"
    unfolding b' eq by simp
  have dist: "distinct (loan_payments b')"
    unfolding left using ids by (simp add: distinct_map)
  have srt: "sorted (map payment_date (?grp p))" for p
    using sel by (intro sorted_filter) (simp add: ordered_by_payment_date_def)
  have one: "length (filter (\<lambda>p. loan_id p = L \<and> week_number p = w) (loan_payments b')) \<le> 1"
  proof (rule distinct_all_equal_length)
    show "distinct (filter (\<lambda>p. loan_id p = L \<and> week_number p = w) (loan_payments b'))"
      using dist by simp
  next
    fix x assume "x \<in> set (filter (\<lambda>p. loan_id p = L \<and> week_number p = w) (loan_payments b'))"
    then have "loan_id x = L" "week_number x = w" "x = hd (?grp x)"
      unfolding left by auto
    then show "x = hd (filter (\<lambda>q. loan_id q = L \<and> week_number q = w) payments)"
      by simp
  qed
  have earliest: "\<forall>p \<in> set (loan_payments b').
       p \<in> set (loan_payments b) \<and>
       (\<forall>q \<in> set (loan_payments b).
          loan_id q = loan_id p \<and> week_number q = week_number p \<longrightarrow>
          payment_date p \<le> payment_date q)"
  proof (intro ballI conjI impI)
    fix p assume p: "p \<in> set (loan_payments b')"
    then show "p \<in> set (loan_payments b)"
      unfolding left by simp
    from p have hd: "p = hd (?grp p)"
      unfolding left by simp
    fix q assume "q \<in> set (loan_payments b)"
      and "loan_id q = loan_id p \<and> week_number q = week_number p"
    then have "q \<in> set (?grp p)"
      by (simp add: same)
    from sorted_hd_le [OF srt this] hd show "payment_date p \<le> payment_date q"
      by simp
  qed
  have kept: "\<forall>q \<in> set (loan_payments b).
       \<exists>p \<in> set (loan_payments b'). loan_id p = loan_id q \<and> week_number p = week_number q"
  proof
    fix q assume q: "q \<in> set (loan_payments b)"
    then have "q \<in> set (?grp q)"
      by (simp add: same)
    then have ne: "?grp q \<noteq> []"
      by (metis empty_iff empty_set)
    then have "hd (?grp q) \<in> set (?grp q)"
      by (rule hd_in_set)
    then have h: "hd (?grp q) \<in> set (loan_payments b)"
      "loan_id (hd (?grp q)) = loan_id q" "week_number (hd (?grp q)) = week_number q"
      by (auto simp: same)
    then have "?grp (hd (?grp q)) = ?grp q"
      by simp
    with h have "hd (?grp q) \<in> set (loan_payments b')"
      unfolding left by simp
    with h show "\<exists>p \<in> set (loan_payments b'). loan_id p = loan_id q \<and> week_number p = week_number q"
      by blast
  qed
  have none: "cleanupDuplicatePayments b None select_answer delete_ok = b"
    and fails: "cleanupDuplicatePayments b user None delete_ok = b"
    by (simp_all add: cleanupDuplicatePayments_def split: option.splits)
  from one left earliest kept rest none fails show ?thesis
    by blast
qed

lemma tables_duplicates_payments:
  "loan_payments tables_duplicates =
     [payment_week1, payment_week1_again, payment_week1_backdated] \<and>
   distinct (map pid (loan_payments tables_duplicates)) \<and>
   length (filter (\<lambda>p. loan_id p = ''L1'' \<and> week_number p = 1)
     (loan_payments tables_duplicates)) = 3"
  by (simp add: tables_duplicates_def tables_with_loan_def payment_week1_def
      payment_week1_again_def payment_week1_backdated_def)

lemma tables_duplicates_answer:
  "ordered_by_payment_date tables_duplicates
     [payment_week1_backdated, payment_week1, payment_week1_again]"
  by (simp add: ordered_by_payment_date_def tables_duplicates_payments [THEN conjunct1])
     (simp add: payment_week1_def payment_week1_again_def payment_week1_backdated_def)

theorem cleanup_keeps_first_of_each_group_witness:
  "distinct (map pid (loan_payments tables_duplicates)) \<and>
   ordered_by_payment_date tables_duplicates
     [payment_week1_backdated, payment_week1, payment_week1_again] \<and>
   length (filter (\<lambda>p. loan_id p = ''L1'' \<and> week_number p = 1)
     (loan_payments tables_duplicates)) = 3 \<and>
   length (filter (\<lambda>p. loan_id p = ''L1'' \<and> week_number p = 1)
     (loan_payments (cleanupDuplicatePayments tables_duplicates (Some ''u1'')
        (Some [payment_week1_backdated, payment_week1, payment_week1_again]) (\<lambda>_. True))))
     \<le> 1 \<and>
   loan_payments (cleanupDuplicatePayments tables_duplicates (Some ''u1'')
        (Some [payment_week1_backdated, payment_week1, payment_week1_again]) (\<lambda>_. True)) =
     [payment_week1_backdated]"
proof -
  note t = tables_duplicates_payments
  let ?answer = "[payment_week1_backdated, payment_week1, payment_week1_again]"
  have ok: "\<And>i::string. (\<lambda>_. True) i"
    by simp
  from cleanup_keeps_first_of_each_group [of "\<lambda>_. True" tables_duplicates ?answer _ "''u1''"
      "''L1''" 1, OF ok t [THEN conjunct2, THEN conjunct1] tables_duplicates_answer refl]
  have le: "length (filter (\<lambda>p. loan_id p = ''L1'' \<and> week_number p = 1)
     (loan_payments (cleanupDuplicatePayments tables_duplicates (Some ''u1'') (Some ?answer)
        (\<lambda>_. True)))) \<le> 1"
    and left: "loan_payments
        (cleanupDuplicatePayments tables_duplicates (Some ''u1'') (Some ?answer) (\<lambda>_. True)) =
      filter (\<lambda>p. p = hd (filter (\<lambda>q. loan_id q = loan_id p \<and> week_number q = week_number p)
                        ?answer))
        (loan_payments tables_duplicates)"
    by blast+
  have "loan_payments
        (cleanupDuplicatePayments tables_duplicates (Some ''u1'') (Some ?answer) (\<lambda>_. True)) =
      [payment_week1_backdated]"
    unfolding left t [THEN conjunct1]
    by (simp add: payment_week1_def payment_week1_again_def payment_week1_backdated_def)
  with t le tables_duplicates_answer show ?thesis
    by blast
qed

text \<open>
  The claim as first stated fails when the query for the payments answers with an error,
  which the routine logs before it ends, and when the deletes answer with errors, which
  the routine does not look at: in both runs the three payments of week 1 are still
  there.
\<close>

theorem cleanup_with_failing_calls_leaves_duplicates:
  "cleanupDuplicatePayments tables_duplicates (Some ''u1'') None (\<lambda>_. True) =
     tables_duplicates \<and>
   cleanupDuplicatePayments tables_duplicates (Some ''u1'')
     (Some [payment_week1_backdated, payment_week1, payment_week1_again]) (\<lambda>_. False) =
     tables_duplicates \<and>
   length (filter (\<lambda>p. loan_id p = ''L1'' \<and> week_number p = 1)
     (loan_payments tables_duplicates)) = 3"
proof -
  have "cleanupDuplicatePayments tables_duplicates (Some ''u1'') None (\<lambda>_. True) =
      tables_duplicates"
    by (simp add: cleanupDuplicatePayments_def)
  moreover have "cleanupDuplicatePayments tables_duplicates (Some ''u1'')
     (Some [payment_week1_backdated, payment_week1, payment_week1_again]) (\<lambda>_. False) =
      tables_duplicates"
    by (rule delete_nothing) simp
  ultimately show ?thesis
    using tables_duplicates_payments by blast
qed

text \<open>
  The status sync counts distinct week numbers and rewrites loan rows; it removes no
  payment, so duplicates are removed by the cleanup alone.
\<close>

lemma syncLoan_keeps_payments: "loan_payments (syncLoan update_ok b l) = loan_payments b"
  by (simp add: syncLoan_def Let_def update_loans_def)

lemma syncLoanStatus_keeps_payments:
  "loan_payments (syncLoanStatus b user select_ok update_ok) = loan_payments b"
proof -
  have "loan_payments (foldl (syncLoan update_ok) b ls) = loan_payments b" for ls
    by (induction ls arbitrary: b) (simp_all add: syncLoan_keeps_payments)
  then show ?thesis
    by (simp add: syncLoanStatus_def split: option.splits)
qed

end
